theory Spec2Isabelle
  imports Complex_Main
begin

section \<open>Floating-point numbers\<close>

text \<open>
  A JavaScript number is an IEEE 754 binary64 value, and every \<open>+\<close>, \<open>-\<close> and \<open>*\<close> of the
  source returns the exact result rounded to the nearest binary64 number, ties to the
  even significand. A GLSL float of the shader is a binary32 value. Both roundings are
  instances of \<open>rnd p emin\<close>: \<open>p\<close> is the number of significand bits and \<open>emin\<close> the
  least exponent of a normal number, below which the spacing of the numbers stays
  fixed (gradual underflow).
\<close>

text \<open>The nearest integer, a tie going to the even one.\<close>

definition round_even :: "real \<Rightarrow> int" where
  "round_even y =
     (let n = \<lfloor>y\<rfloor>; r = y - of_int n
      in if r < 1 / 2 then n else if 1 / 2 < r then n + 1
         else if even n then n else n + 1)"

text \<open>The binary exponent of \<open>x\<close>, not below \<open>emin\<close>.\<close>

definition expo :: "int \<Rightarrow> real \<Rightarrow> int" where
  "expo emin x = max \<lfloor>log 2 \<bar>x\<bar>\<rfloor> emin"

text \<open>
  Rounding: \<open>x\<close> is divided by the spacing \<open>q\<close> of the format's numbers at the size of
  \<open>x\<close>, rounded to an integer, and multiplied by \<open>q\<close> again. The exponent has no upper
  bound here; a result too large for the format is detected where the format is used.
\<close>

definition rnd :: "nat \<Rightarrow> int \<Rightarrow> real \<Rightarrow> real" where
  "rnd p emin x =
     (if x = 0 then 0
      else (let q = 2 powi (expo emin x - int p + 1)
            in of_int (round_even (x / q)) * q))"

subsection \<open>JavaScript numbers\<close>

definition fl64 :: "real \<Rightarrow> real" where
  "fl64 = rnd 53 (- 1022)"

text \<open>\<open>Number.MAX_VALUE\<close>, the largest finite number.\<close>

definition MAX_VALUE :: real where
  "MAX_VALUE = (2 ^ 53 - 1) * 2 ^ 971"

text \<open>
  A number is \<open>Some x\<close> for the finite value \<open>x\<close>, and \<open>None\<close> when it is not finite
  (\<open>Infinity\<close>, \<open>-Infinity\<close> or \<open>NaN\<close>). The two zeros are not told apart: the source
  never divides by a number it computed. \<open>to_number x\<close> is the number that the exact
  result \<open>x\<close> of an operation, or a decimal literal \<open>x\<close> of the source, becomes: it is
  rounded, and a rounded value beyond \<open>MAX_VALUE\<close> is an infinity.
\<close>

type_synonym number = "real option"

definition to_number :: "real \<Rightarrow> number" where
  "to_number x = (let r = fl64 x in if \<bar>r\<bar> \<le> MAX_VALUE then Some r else None)"

text \<open>The finite binary64 values.\<close>

definition is_double :: "real \<Rightarrow> bool" where
  "is_double x \<longleftrightarrow> fl64 x = x \<and> \<bar>x\<bar> \<le> MAX_VALUE"

text \<open>
  \<open>+\<close>, \<open>-\<close> and \<open>*\<close>. With an operand that is not finite the result is not finite
  either (\<open>Infinity * 0\<close> and \<open>Infinity - Infinity\<close> are \<open>NaN\<close>).
\<close>

definition num_add :: "number \<Rightarrow> number \<Rightarrow> number" where
  "num_add a b =
     (case a of None \<Rightarrow> None
      | Some x \<Rightarrow> (case b of None \<Rightarrow> None | Some y \<Rightarrow> to_number (x + y)))"

definition num_sub :: "number \<Rightarrow> number \<Rightarrow> number" where
  "num_sub a b =
     (case a of None \<Rightarrow> None
      | Some x \<Rightarrow> (case b of None \<Rightarrow> None | Some y \<Rightarrow> to_number (x - y)))"

definition num_mul :: "number \<Rightarrow> number \<Rightarrow> number" where
  "num_mul a b =
     (case a of None \<Rightarrow> None
      | Some x \<Rightarrow> (case b of None \<Rightarrow> None | Some y \<Rightarrow> to_number (x * y)))"

subsection \<open>GLSL floats\<close>

text \<open>
  The shader's noise function has \<open>floor\<close> and \<open>step\<close> in it, so the rounding of its
  operations decides which gradients it selects. Its operations are the binary32 ones;
  its values stay far from the largest float, and no overflow is modelled.
\<close>

definition fl32 :: "real \<Rightarrow> real" where
  "fl32 = rnd 24 (- 126)"

definition fadd :: "real \<Rightarrow> real \<Rightarrow> real" where
  "fadd a b = fl32 (a + b)"

definition fsub :: "real \<Rightarrow> real \<Rightarrow> real" where
  "fsub a b = fl32 (a - b)"

definition fmul :: "real \<Rightarrow> real \<Rightarrow> real" where
  "fmul a b = fl32 (a * b)"

definition fdiv :: "real \<Rightarrow> real \<Rightarrow> real" where
  "fdiv a b = fl32 (a / b)"

section \<open>src/utils/math.ts\<close>

text \<open>
  \<open>THREE.Vector3\<close> is a class with the three fields \<open>x\<close>, \<open>y\<close>, \<open>z\<close>;
  \<open>new THREE.Vector3()\<close> has all three equal to zero.
\<close>

record Vector3 =
  vec_x :: number
  vec_y :: number
  vec_z :: number

definition new_Vector3 :: "number \<Rightarrow> number \<Rightarrow> number \<Rightarrow> Vector3" where
  "new_Vector3 a b c = \<lparr>vec_x = a, vec_y = b, vec_z = c\<rparr>"

text \<open>Lines 40 to 42: \<open>start * (1 - t) + end * t\<close>, every operation rounded.\<close>

definition lerp :: "number \<Rightarrow> number \<Rightarrow> number \<Rightarrow> number" where
  "lerp start end' t =
     num_add (num_mul start (num_sub (to_number 1) t)) (num_mul end' t)"


section \<open>GLSL: the vertex shader of the particle cloud\<close>

text \<open>
  The statements about \<open>main\<close> below are algebraic ones, and about the ends of the
  blend, where its float operations are exact; so the operations of \<open>main\<close> itself are
  written as the exact ones. Those of the noise function are the binary32 ones.

  GLSL's \<open>vec3\<close> and \<open>vec4\<close>, with the componentwise reading of the operators: a unary
  function is applied to every component (\<open>map3\<close>, \<open>map4\<close>), a binary operator
  combines the components pairwise (\<open>zip3\<close>, \<open>zip4\<close>), and a scalar operand is used
  with every component.
\<close>

datatype vec3 = Vec3 (x3: real) (y3: real) (z3: real)

datatype vec4 = Vec4 (x4: real) (y4: real) (z4: real) (w4: real)

definition map3 :: "(real \<Rightarrow> real) \<Rightarrow> vec3 \<Rightarrow> vec3" where
  "map3 f v = Vec3 (f (x3 v)) (f (y3 v)) (f (z3 v))"

definition zip3 :: "(real \<Rightarrow> real \<Rightarrow> real) \<Rightarrow> vec3 \<Rightarrow> vec3 \<Rightarrow> vec3" where
  "zip3 f a b = Vec3 (f (x3 a) (x3 b)) (f (y3 a) (y3 b)) (f (z3 a) (z3 b))"

definition map4 :: "(real \<Rightarrow> real) \<Rightarrow> vec4 \<Rightarrow> vec4" where
  "map4 f v = Vec4 (f (x4 v)) (f (y4 v)) (f (z4 v)) (f (w4 v))"

definition zip4 :: "(real \<Rightarrow> real \<Rightarrow> real) \<Rightarrow> vec4 \<Rightarrow> vec4 \<Rightarrow> vec4" where
  "zip4 f a b = Vec4 (f (x4 a) (x4 b)) (f (y4 a) (y4 b)) (f (z4 a) (z4 b)) (f (w4 a) (w4 b))"

definition dot4 :: "vec4 \<Rightarrow> vec4 \<Rightarrow> real" where
  "dot4 a b = x4 a * x4 b + y4 a * y4 b + z4 a * z4 b + w4 a * w4 b"

text \<open>The swizzles the shader uses.\<close>

definition yzx :: "vec3 \<Rightarrow> vec3" where
  "yzx v = Vec3 (y3 v) (z3 v) (x3 v)"

definition zxy :: "vec3 \<Rightarrow> vec3" where
  "zxy v = Vec3 (z3 v) (x3 v) (y3 v)"

definition xzyw :: "vec4 \<Rightarrow> vec4" where
  "xzyw v = Vec4 (x4 v) (z4 v) (y4 v) (w4 v)"

definition xxyy :: "vec4 \<Rightarrow> vec4" where
  "xxyy v = Vec4 (x4 v) (x4 v) (y4 v) (y4 v)"

definition zzww :: "vec4 \<Rightarrow> vec4" where
  "zzww v = Vec4 (z4 v) (z4 v) (w4 v) (w4 v)"

text \<open>The built-in functions \<open>floor\<close>, \<open>step(edge, x)\<close> and \<open>mix(x, y, a)\<close> on a float.\<close>

definition glsl_floor :: "real \<Rightarrow> real" where
  "glsl_floor a = of_int \<lfloor>a\<rfloor>"

definition glsl_step :: "real \<Rightarrow> real \<Rightarrow> real" where
  "glsl_step edge a = (if a < edge then 0 else 1)"

definition glsl_mix :: "real \<Rightarrow> real \<Rightarrow> real \<Rightarrow> real" where
  "glsl_mix a b t = a * (1 - t) + b * t"

text \<open>The dot products of the noise function, summed from the left.\<close>

definition fdot3 :: "vec3 \<Rightarrow> vec3 \<Rightarrow> real" where
  "fdot3 a b = fadd (fadd (fmul (x3 a) (x3 b)) (fmul (y3 a) (y3 b))) (fmul (z3 a) (z3 b))"

definition fdot4 :: "vec4 \<Rightarrow> vec4 \<Rightarrow> real" where
  "fdot4 a b =
     fadd (fadd (fadd (fmul (x4 a) (x4 b)) (fmul (y4 a) (y4 b))) (fmul (z4 a) (z4 b)))
          (fmul (w4 a) (w4 b))"

text \<open>Lines 21 to 24: the helpers of the noise function.\<close>

definition mod289 :: "real \<Rightarrow> real" where
  "mod289 a = fsub a (fmul (glsl_floor (fmul a (fdiv 1 289))) 289)"

definition permute :: "vec4 \<Rightarrow> vec4" where
  "permute v = map4 (\<lambda>a. mod289 (fmul (fadd (fmul a 34) 1) a)) v"

definition taylorInvSqrt :: "vec4 \<Rightarrow> vec4" where
  "taylorInvSqrt r =
     map4 (\<lambda>a. fsub (fl32 1.79284291400159) (fmul (fl32 0.85373472095314) a)) r"

text \<open>
  Lines 25 to 70: \<open>snoise\<close>, the simplex noise, in binary32. \<open>C = (1/6, 1/3)\<close> and
  \<open>D = (0, 0.5, 1, 2)\<close> are written out where the source swizzles them; a decimal
  constant that is no binary32 number is rounded to one.
\<close>

definition snoise :: "vec3 \<Rightarrow> real" where
  "snoise v =
     (let Cx = fdiv 1 6; Cy = fdiv 1 3;
          i = map3 glsl_floor (map3 (\<lambda>a. fadd a (fdot3 v (Vec3 Cy Cy Cy))) v);
          x0 = map3 (\<lambda>a. fadd a (fdot3 i (Vec3 Cx Cx Cx))) (zip3 fsub v i);
          g = zip3 glsl_step (yzx x0) x0;
          l = map3 (\<lambda>a. fsub 1 a) g;
          i1 = zip3 min g (zxy l);
          i2 = zip3 max g (zxy l);
          x1 = map3 (\<lambda>a. fadd a Cx) (zip3 fsub x0 i1);
          x2 = map3 (\<lambda>a. fadd a Cy) (zip3 fsub x0 i2);
          x3' = map3 (\<lambda>a. fsub a 0.5) x0;
          i = map3 mod289 i;
          p = permute (zip4 fadd
                (map4 (\<lambda>a. fadd a (x3 i))
                  (permute (zip4 fadd
                    (map4 (\<lambda>a. fadd a (y3 i))
                      (permute (map4 (\<lambda>a. fadd (z3 i) a) (Vec4 0 (z3 i1) (z3 i2) 1))))
                    (Vec4 0 (y3 i1) (y3 i2) 1))))
                (Vec4 0 (x3 i1) (x3 i2) 1));
          n' = fl32 0.142857142857;
          ns = Vec3 (fsub (fmul n' 2) 0) (fsub (fmul n' 0.5) 1) (fsub (fmul n' 1) 0);
          j = zip4 fsub p (map4 (\<lambda>a. fmul 49 (glsl_floor (fmul (fmul a (z3 ns)) (z3 ns)))) p);
          x' = map4 (\<lambda>a. glsl_floor (fmul a (z3 ns))) j;
          y' = map4 glsl_floor (zip4 fsub j (map4 (\<lambda>a. fmul 7 a) x'));
          x = map4 (\<lambda>a. fadd (fmul a (x3 ns)) (y3 ns)) x';
          y = map4 (\<lambda>a. fadd (fmul a (x3 ns)) (y3 ns)) y';
          h = zip4 (\<lambda>a b. fsub (fsub 1 \<bar>a\<bar>) \<bar>b\<bar>) x y;
          b0 = Vec4 (x4 x) (y4 x) (x4 y) (y4 y);
          b1 = Vec4 (z4 x) (w4 x) (z4 y) (w4 y);
          s0 = map4 (\<lambda>a. fadd (fmul (glsl_floor a) 2) 1) b0;
          s1 = map4 (\<lambda>a. fadd (fmul (glsl_floor a) 2) 1) b1;
          sh = map4 (\<lambda>a. - glsl_step a 0) h;
          a0 = zip4 fadd (xzyw b0) (zip4 fmul (xzyw s0) (xxyy sh));
          a1 = zip4 fadd (xzyw b1) (zip4 fmul (xzyw s1) (zzww sh));
          p0 = Vec3 (x4 a0) (y4 a0) (x4 h);
          p1 = Vec3 (z4 a0) (w4 a0) (y4 h);
          p2 = Vec3 (x4 a1) (y4 a1) (z4 h);
          p3 = Vec3 (z4 a1) (w4 a1) (w4 h);
          norm = taylorInvSqrt (Vec4 (fdot3 p0 p0) (fdot3 p1 p1) (fdot3 p2 p2) (fdot3 p3 p3));
          p0 = map3 (\<lambda>a. fmul a (x4 norm)) p0;
          p1 = map3 (\<lambda>a. fmul a (y4 norm)) p1;
          p2 = map3 (\<lambda>a. fmul a (z4 norm)) p2;
          p3 = map3 (\<lambda>a. fmul a (w4 norm)) p3;
          m = map4 (\<lambda>a. max (fsub (fl32 0.6) a) 0)
                (Vec4 (fdot3 x0 x0) (fdot3 x1 x1) (fdot3 x2 x2) (fdot3 x3' x3'));
          m = zip4 fmul m m
      in fmul 42 (fdot4 (zip4 fmul m m)
                        (Vec4 (fdot3 p0 x0) (fdot3 p1 x1) (fdot3 p2 x2) (fdot3 p3 x3'))))"

text \<open>
  \<open>main\<close>, lines 76 to 81: the local \<open>pos\<close> after \<open>pos += noise * 0.2 * (1.0 - uProgress)\<close>.
  The wind is a float; it is added to every component of \<open>pos\<close>.
\<close>

definition main_mix :: "vec3 \<Rightarrow> vec3 \<Rightarrow> real \<Rightarrow> vec3" where
  "main_mix aTreePos aChaosPos uProgress =
     zip3 (\<lambda>a b. glsl_mix a b uProgress) aTreePos aChaosPos"

definition main_noise :: "vec3 \<Rightarrow> vec3 \<Rightarrow> real \<Rightarrow> real \<Rightarrow> real" where
  "main_noise aTreePos aChaosPos uProgress uTime =
     (let pos = main_mix aTreePos aChaosPos uProgress
      in snoise (map3 (\<lambda>a. a * 0.5 + uTime * 0.5) pos))"

definition main_pos :: "vec3 \<Rightarrow> vec3 \<Rightarrow> real \<Rightarrow> real \<Rightarrow> vec3" where
  "main_pos aTreePos aChaosPos uProgress uTime =
     (let pos = main_mix aTreePos aChaosPos uProgress;
          noise = main_noise aTreePos aChaosPos uProgress uTime
      in map3 (\<lambda>a. a + noise * 0.2 * (1 - uProgress)) pos)"

text \<open>\<open>main\<close>, lines 87 to 93: the local \<open>baseSize\<close>, for the final \<open>pos\<close>.\<close>

definition main_baseSize :: "vec3 \<Rightarrow> real \<Rightarrow> real \<Rightarrow> real \<Rightarrow> real" where
  "main_baseSize pos aSize aIsLight uTime =
     (if aIsLight > 0.5
      then (let twinkle = sin (uTime * 3 + x3 pos * 10) * 0.5 + 0.5
            in aSize * (1 + twinkle * 1.5))
      else aSize)"

text \<open>
  The whole of \<open>main\<close>. A \<open>mat4\<close> is given by its four rows. Where the source divides by
  \<open>-mvPosition.z\<close> and that is zero, GLSL leaves the point size undefined, and the
  quotient below is the \<open>0\<close> of HOL's division: for such a matrix the point size of the
  model says nothing about the shader.
\<close>

datatype mat4 = Mat4 (row0: vec4) (row1: vec4) (row2: vec4) (row3: vec4)

definition mat_vec :: "mat4 \<Rightarrow> vec4 \<Rightarrow> vec4" where
  "mat_vec m v = Vec4 (dot4 (row0 m) v) (dot4 (row1 m) v) (dot4 (row2 m) v) (dot4 (row3 m) v)"

record VertexOut =
  vColor :: vec3
  vIsLight :: real
  gl_Position :: vec4
  gl_PointSize :: real

definition foliageVertexShader ::
  "mat4 \<Rightarrow> mat4 \<Rightarrow> real \<Rightarrow> real \<Rightarrow> vec3 \<Rightarrow> vec3 \<Rightarrow> real \<Rightarrow> vec3 \<Rightarrow> real \<Rightarrow> VertexOut" where
  "foliageVertexShader modelViewMatrix projectionMatrix uProgress uTime
       aTreePos aChaosPos aSize aColor aIsLight =
     (let pos = main_pos aTreePos aChaosPos uProgress uTime;
          mvPosition = mat_vec modelViewMatrix (Vec4 (x3 pos) (y3 pos) (z3 pos) 1);
          baseSize = main_baseSize pos aSize aIsLight uTime
      in \<lparr>vColor = aColor, vIsLight = aIsLight,
          gl_Position = mat_vec projectionMatrix mvPosition,
          gl_PointSize = baseSize * (300 / - z4 mvPosition)\<rparr>)"


section \<open>The component \<open>LuxuryTree\<close>\<close>

definition FOLIAGE_COUNT :: nat where
  "FOLIAGE_COUNT = 18000"

definition LIGHTS_COUNT :: nat where
  "LIGHTS_COUNT = 800"

definition TOTAL_PARTICLES :: nat where
  "TOTAL_PARTICLES = FOLIAGE_COUNT + LIGHTS_COUNT"

definition ORNAMENT_COUNT :: nat where
  "ORNAMENT_COUNT = 400"

text \<open>
  Lines 162 to 172: the value of the attribute \<open>aIsLight\<close> that the particle \<open>i\<close> gets
  when the buffers are built.
\<close>

definition particle_isLight :: "nat \<Rightarrow> real" where
  "particle_isLight i = (if i \<ge> FOLIAGE_COUNT then 1.0 else 0.0)"

subsection \<open>The state the frame callback works on\<close>

text \<open>
  Modelled from the spec: the store module (\<open>../store\<close>, \<open>useAppStore\<close>) is not among
  the sources. It holds the current \<open>chaosLevel\<close> and the \<open>targetChaosLevel\<close> that is set
  from outside; \<open>setChaosLevel\<close> writes the new current value back.
\<close>

record AppStore =
  chaosLevel :: number
  targetChaosLevel :: number

definition setChaosLevel :: "number \<Rightarrow> AppStore \<Rightarrow> AppStore" where
  "setChaosLevel v st = st\<lparr>chaosLevel := v\<rparr>"

text \<open>The uniforms of the shader material (\<open>shaderRef.current.uniforms\<close>).\<close>

record Uniforms =
  uProgress_value :: number
  uTime_value :: number

text \<open>The star's mesh: the position and the two rotation angles the callback writes.\<close>

record Mesh =
  mesh_position :: Vector3
  rotation_y :: number
  rotation_z :: number

text \<open>
  The helper object \<open>dummy\<close>. Its rotation is never written, so the matrix that
  \<open>updateMatrix\<close> composes is given by the position and the scale; an instance matrix
  of the ornaments is recorded as that pair.
\<close>

record Object3D =
  obj_position :: Vector3
  obj_scale :: Vector3

record InstancedMesh =
  instanceMatrix :: "Object3D list"
  needsUpdate :: bool

definition setMatrixAt :: "nat \<Rightarrow> Object3D \<Rightarrow> InstancedMesh \<Rightarrow> InstancedMesh" where
  "setMatrixAt i m mesh = mesh\<lparr>instanceMatrix := (instanceMatrix mesh)[i := m]\<rparr>"

text \<open>
  Lines 185 to 204. The tree and chaos targets of the ornaments and the chaos target of
  the star are sampled at random once, with \<open>getConePoint\<close> and
  \<open>getRandomSpherePoint\<close>; the frame callback only reads them, and they are its
  parameter here. The tree target of the star is the constant of line 197.
\<close>

record Targets =
  ornament_tree :: "Vector3 list"
  ornament_chaos :: "Vector3 list"
  star_chaos :: Vector3

definition starTree :: Vector3 where
  "starTree = new_Vector3 (to_number 0) (to_number 7.5) (to_number 0)"

text \<open>
  The component's own state. A ref is \<open>None\<close> while its object is not mounted. The
  callback reads \<open>targetChaosLevel\<close> as the component read it from the store.
\<close>

record LuxuryTree =
  store :: AppStore
  shaderRef :: "Uniforms option"
  ornamentsRef :: "InstancedMesh option"
  starRef :: "Mesh option"
  dummy :: Object3D
  currentPos :: "Vector3 list"
  currentStarPos :: Vector3

text \<open>
  Lines 227 to 229: what the component creates for itself. \<open>new THREE.Object3D()\<close> has
  position \<open>(0, 0, 0)\<close> and scale \<open>(1, 1, 1)\<close>. The store and the three mounted objects
  come from outside.
\<close>

definition initial_currentPos :: "Vector3 list" where
  "initial_currentPos =
     map (\<lambda>_. new_Vector3 (to_number 0) (to_number 0) (to_number 0))
       (replicate ORNAMENT_COUNT (to_number 0))"

definition initial_currentStarPos :: Vector3 where
  "initial_currentStarPos = new_Vector3 (to_number 0) (to_number 0) (to_number 0)"

definition initial_LuxuryTree ::
  "AppStore \<Rightarrow> Uniforms option \<Rightarrow> InstancedMesh option \<Rightarrow> Mesh option \<Rightarrow> LuxuryTree" where
  "initial_LuxuryTree st sh orn star =
     \<lparr>store = st, shaderRef = sh, ornamentsRef = orn, starRef = star,
      dummy = \<lparr>obj_position = new_Vector3 (to_number 0) (to_number 0) (to_number 0),
               obj_scale = new_Vector3 (to_number 1) (to_number 1) (to_number 1)\<rparr>,
      currentPos = initial_currentPos,
      currentStarPos = initial_currentStarPos\<rparr>"

subsection \<open>The frame callback (lines 232 to 285)\<close>

text \<open>Lines 233 and 234: the new chaos level.\<close>

definition newChaos_of :: "AppStore \<Rightarrow> number \<Rightarrow> number" where
  "newChaos_of st delta =
     (let currentChaos = chaosLevel st
      in lerp currentChaos (targetChaosLevel st) (num_mul delta (to_number 2.0)))"

text \<open>Lines 238 to 241.\<close>

definition update_shader :: "number \<Rightarrow> number \<Rightarrow> Uniforms option \<Rightarrow> Uniforms option" where
  "update_shader newChaos elapsedTime sh =
     (case sh of
        None \<Rightarrow> None
      | Some u \<Rightarrow> Some (u\<lparr>uProgress_value := newChaos, uTime_value := elapsedTime\<rparr>))"

text \<open>
  Lines 244 to 258. \<open>currentStarPos\<close> is written only when the star is mounted, and the
  mesh's position is a copy of it.
\<close>

definition star_step :: "Targets \<Rightarrow> number \<Rightarrow> number \<Rightarrow> Vector3 \<Rightarrow> Vector3" where
  "star_step tg newChaos delta cur =
     (let sT = starTree;
          sC = star_chaos tg;
          sTargetX = lerp (vec_x sT) (vec_x sC) newChaos;
          sTargetY = lerp (vec_y sT) (vec_y sC) newChaos;
          sTargetZ = lerp (vec_z sT) (vec_z sC) newChaos
      in cur\<lparr>vec_x := lerp (vec_x cur) sTargetX (num_mul delta (to_number 4.0)),
             vec_y := lerp (vec_y cur) sTargetY (num_mul delta (to_number 4.0)),
             vec_z := lerp (vec_z cur) sTargetZ (num_mul delta (to_number 4.0))\<rparr>)"

definition update_star :: "Targets \<Rightarrow> number \<Rightarrow> number \<Rightarrow> LuxuryTree \<Rightarrow> LuxuryTree" where
  "update_star tg newChaos delta s =
     (case starRef s of
        None \<Rightarrow> s
      | Some star \<Rightarrow>
          (let cur = star_step tg newChaos delta (currentStarPos s)
           in s\<lparr>currentStarPos := cur,
                starRef := Some (star\<lparr>mesh_position := cur,
                    rotation_y := num_add (rotation_y star) delta,
                    rotation_z := num_add (rotation_z star) (num_mul delta (to_number 0.5))\<rparr>)\<rparr>))"

text \<open>
  Lines 263 to 281: one round of the loop over the ornaments, for the index \<open>i\<close>.
  The arrays read at \<open>i\<close> all have \<open>ORNAMENT_COUNT\<close> elements in the program.
\<close>

definition ornament_step :: "Targets \<Rightarrow> number \<Rightarrow> number \<Rightarrow> nat \<Rightarrow> Vector3 \<Rightarrow> Vector3" where
  "ornament_step tg newChaos delta i cur =
     (let tPos = ornament_tree tg ! i;
          cPos = ornament_chaos tg ! i;
          targetX = lerp (vec_x tPos) (vec_x cPos) newChaos;
          targetY = lerp (vec_y tPos) (vec_y cPos) newChaos;
          targetZ = lerp (vec_z tPos) (vec_z cPos) newChaos
      in cur\<lparr>vec_x := lerp (vec_x cur) targetX (num_mul delta (to_number 4.0)),
             vec_y := lerp (vec_y cur) targetY (num_mul delta (to_number 4.0)),
             vec_z := lerp (vec_z cur) targetZ (num_mul delta (to_number 4.0))\<rparr>)"

definition ornament_round ::
  "Targets \<Rightarrow> number \<Rightarrow> number \<Rightarrow> nat \<Rightarrow> Object3D \<times> Vector3 list \<times> InstancedMesh \<Rightarrow>
     Object3D \<times> Vector3 list \<times> InstancedMesh" where
  "ornament_round tg newChaos delta i st =
     (case st of (dum, curs, mesh) \<Rightarrow>
        (let cur = ornament_step tg newChaos delta i (curs ! i);
             scale = lerp (to_number 0.35) (to_number 0.1) newChaos;
             dum' = dum\<lparr>obj_position := new_Vector3 (vec_x cur) (vec_y cur) (vec_z cur),
                        obj_scale := new_Vector3 scale scale scale\<rparr>
         in (dum', curs[i := cur], setMatrixAt i dum' mesh)))"

text \<open>Lines 261 to 284: the loop, and the flag set after it.\<close>

definition update_ornaments :: "Targets \<Rightarrow> number \<Rightarrow> number \<Rightarrow> LuxuryTree \<Rightarrow> LuxuryTree" where
  "update_ornaments tg newChaos delta s =
     (case ornamentsRef s of
        None \<Rightarrow> s
      | Some mesh \<Rightarrow>
          (case fold (ornament_round tg newChaos delta) [0..<ORNAMENT_COUNT]
                  (dummy s, currentPos s, mesh) of
             (dum, curs, mesh') \<Rightarrow>
               s\<lparr>dummy := dum, currentPos := curs,
                  ornamentsRef := Some (mesh'\<lparr>needsUpdate := True\<rparr>)\<rparr>))"

text \<open>
  The callback, for the frame clock's \<open>elapsedTime\<close> and \<open>delta\<close>.
\<close>

definition useFrame :: "Targets \<Rightarrow> number \<Rightarrow> number \<Rightarrow> LuxuryTree \<Rightarrow> LuxuryTree" where
  "useFrame tg elapsedTime delta s =
     (let newChaos = newChaos_of (store s) delta;
          s = s\<lparr>store := setChaosLevel newChaos (store s)\<rparr>;
          s = s\<lparr>shaderRef := update_shader newChaos elapsedTime (shaderRef s)\<rparr>;
          s = update_star tg newChaos delta s
      in update_ornaments tg newChaos delta s)"

text \<open>
  \<open>n\<close> frames in a row with the same \<open>delta\<close>; \<open>clock k\<close> is the elapsed time the clock
  shows at frame \<open>k\<close>. Nothing but the callback writes the state in between.
\<close>

primrec frames :: "Targets \<Rightarrow> (nat \<Rightarrow> number) \<Rightarrow> number \<Rightarrow> nat \<Rightarrow> LuxuryTree \<Rightarrow> LuxuryTree" where
  "frames tg clock delta 0 s = s"
| "frames tg clock delta (Suc n) s = useFrame tg (clock n) delta (frames tg clock delta n s)"


subsection \<open>An input for the examples\<close>

text \<open>Targets of the right shape: \<open>ORNAMENT_COUNT\<close> ornaments, and a star.\<close>

definition example_targets :: Targets where
  "example_targets =
     \<lparr>ornament_tree = replicate ORNAMENT_COUNT (new_Vector3 (to_number 2) (to_number 1) (to_number 0)),
      ornament_chaos = replicate ORNAMENT_COUNT (new_Vector3 (to_number 0) (to_number 16) (to_number 8)),
      star_chaos = new_Vector3 (to_number 0) (to_number 0) (to_number 24)\<rparr>"

section \<open>Facts about rounding\<close>

lemma round_even_of_int [simp]: "round_even (of_int n) = n"
  by (simp add: round_even_def)

lemma round_even_bounds: "\<lfloor>y\<rfloor> \<le> round_even y \<and> round_even y \<le> \<lfloor>y\<rfloor> + 1"
  by (simp add: round_even_def Let_def)

lemma round_even_err: "\<bar>of_int (round_even y) - y\<bar> \<le> 1 / 2"
proof -
  have "of_int \<lfloor>y\<rfloor> \<le> y" "y < of_int \<lfloor>y\<rfloor> + 1" by linarith+
  then show ?thesis
    by (auto simp: round_even_def Let_def abs_le_iff)
qed

lemma round_even_mono:
  assumes "y \<le> z"
  shows "round_even y \<le> round_even z"
proof (cases "\<lfloor>y\<rfloor> = \<lfloor>z\<rfloor>")
  case True
  have "y - of_int \<lfloor>z\<rfloor> \<le> z - of_int \<lfloor>z\<rfloor>" using assms by simp
  then show ?thesis
    unfolding round_even_def Let_def True by auto
next
  case False
  have "\<lfloor>y\<rfloor> \<le> \<lfloor>z\<rfloor>" using assms by (rule floor_mono)
  with False have "\<lfloor>y\<rfloor> + 1 \<le> \<lfloor>z\<rfloor>" by simp
  then show ?thesis
    using round_even_bounds[of y] round_even_bounds[of z] by linarith
qed

lemma round_even_minus: "round_even (- y) = - round_even y"
proof (cases "y = of_int \<lfloor>y\<rfloor>")
  case True
  then obtain n where "y = of_int n" ..
  then show ?thesis by (simp flip: of_int_minus)
next
  case False
  define n where "n = \<lfloor>y\<rfloor>"
  have ny: "of_int n < y" "y < of_int n + 1"
    using False unfolding n_def by linarith+
  have fl: "\<lfloor>- y\<rfloor> = - n - 1"
    using ny by (intro floor_unique) simp_all
  have ev: "even (- n - 1) \<longleftrightarrow> odd n" by simp
  show ?thesis
    using ny unfolding round_even_def Let_def fl ev n_def[symmetric]
    by (auto simp: algebra_simps)
qed


lemma floor_log2_bounds:
  assumes "0 < a"
  shows "2 powi \<lfloor>log 2 a\<rfloor> \<le> a" and "a < 2 powi (\<lfloor>log 2 a\<rfloor> + 1)"
proof -
  have "2 powr (of_int \<lfloor>log 2 a\<rfloor>) \<le> a \<and> a < 2 powr (of_int \<lfloor>log 2 a\<rfloor> + 1)"
    using floor_log_eq_powr_iff[of a 2 "\<lfloor>log 2 a\<rfloor>"] assms by simp
  moreover have "(2::real) powr (of_int \<lfloor>log 2 a\<rfloor>) = 2 powi \<lfloor>log 2 a\<rfloor>"
    by (rule powr_real_of_int') simp_all
  moreover have "(2::real) powr (of_int \<lfloor>log 2 a\<rfloor> + 1) = 2 powi (\<lfloor>log 2 a\<rfloor> + 1)"
    using powr_real_of_int'[of 2 "\<lfloor>log 2 a\<rfloor> + 1"] by simp
  ultimately show "2 powi \<lfloor>log 2 a\<rfloor> \<le> a" and "a < 2 powi (\<lfloor>log 2 a\<rfloor> + 1)"
    by simp_all
qed

lemma floor_log2_eq:
  assumes "2 powi L \<le> a" and "a < 2 powi (L + 1)"
  shows "\<lfloor>log 2 a\<rfloor> = L"
proof -
  have pos: "0 < a" using assms(1) zero_less_power_int[of "2::real" L] by linarith
  have "(2::real) powr (of_int L) = 2 powi L"
    by (rule powr_real_of_int') simp_all
  moreover have "(2::real) powr (of_int L + 1) = 2 powi (L + 1)"
    using powr_real_of_int'[of 2 "L + 1"] by simp
  ultimately show ?thesis
    using floor_log_eq_powr_iff[of a 2 L] pos assms by simp
qed

lemma expo_ge_emin: "emin \<le> expo emin x"
  by (simp add: expo_def)

lemma expo_minus [simp]: "expo emin (- x) = expo emin x"
  by (simp add: expo_def)

lemma expo_upper:
  assumes "x \<noteq> 0"
  shows "\<bar>x\<bar> < 2 powi (expo emin x + 1)"
proof -
  have "\<bar>x\<bar> < 2 powi (\<lfloor>log 2 \<bar>x\<bar>\<rfloor> + 1)"
    using assms by (intro floor_log2_bounds) simp
  also have "\<dots> \<le> 2 powi (expo emin x + 1)"
    by (intro power_int_increasing) (simp_all add: expo_def)
  finally show ?thesis .
qed

lemma expo_lower:
  assumes "x \<noteq> 0" and "emin < expo emin x"
  shows "2 powi (expo emin x) \<le> \<bar>x\<bar>"
proof -
  have "expo emin x = \<lfloor>log 2 \<bar>x\<bar>\<rfloor>" using assms(2) by (simp add: expo_def max_def split: if_splits)
  then show ?thesis using floor_log2_bounds(1)[of "\<bar>x\<bar>"] assms(1) by simp
qed

lemma expo_mono:
  assumes "x \<noteq> 0" and "\<bar>x\<bar> \<le> \<bar>y\<bar>"
  shows "expo emin x \<le> expo emin y"
proof -
  have "log 2 \<bar>x\<bar> \<le> log 2 \<bar>y\<bar>" using assms by simp
  then have "\<lfloor>log 2 \<bar>x\<bar>\<rfloor> \<le> \<lfloor>log 2 \<bar>y\<bar>\<rfloor>" by (rule floor_mono)
  then show ?thesis by (simp add: expo_def)
qed

lemma expo_eq:
  assumes "2 powi L \<le> \<bar>x\<bar>" and "\<bar>x\<bar> < 2 powi (L + 1)"
  shows "expo emin x = max L emin"
  using floor_log2_eq[OF assms] by (simp add: expo_def)

lemma rnd_0 [simp]: "rnd p emin 0 = 0"
  by (simp add: rnd_def)

lemma rnd_minus: "rnd p emin (- x) = - rnd p emin x"
  by (simp add: rnd_def Let_def round_even_minus)

lemma rnd_eq:
  assumes "x \<noteq> 0"
  shows "rnd p emin x = of_int (round_even (x / 2 powi (expo emin x - int p + 1)))
           * 2 powi (expo emin x - int p + 1)"
  using assms by (simp add: rnd_def Let_def)

lemma p2_add: "(2::real) powi (a + b) = 2 powi a * 2 powi b"
  by (simp add: power_int_add)

lemma p2_diff: "(2::real) powi (a - b) = 2 powi a / 2 powi b"
  by (simp add: power_int_diff)

lemma p2_mono: "a \<le> b \<Longrightarrow> (2::real) powi a \<le> 2 powi b"
  by (rule power_int_increasing) simp_all

lemma p2_strict_mono: "a < b \<Longrightarrow> (2::real) powi a < 2 powi b"
  by (rule power_int_strict_increasing) simp_all

lemma p2_less_imp: "(2::real) powi a < 2 powi b \<Longrightarrow> a < b"
  using p2_mono[of b a] by (cases "a < b") simp_all

lemma p2_half: "(2::real) powi (a + 1) / 2 = 2 powi a"
  by (simp add: p2_add)

lemma rnd_err:
  "\<bar>rnd p emin x - x\<bar> \<le> 2 powi (expo emin x - int p)"
proof (cases "x = 0")
  case True
  then show ?thesis by simp
next
  case False
  define q :: real where "q = 2 powi (expo emin x - int p + 1)"
  define n where "n = round_even (x / q)"
  have q: "0 < q" by (simp add: q_def)
  have "\<bar>of_int n - x / q\<bar> \<le> 1 / 2" unfolding n_def by (rule round_even_err)
  then have "\<bar>of_int n - x / q\<bar> * q \<le> 1 / 2 * q"
    using q by (intro mult_right_mono) simp_all
  moreover have "(of_int n - x / q) * q = of_int n * q - x"
    using q by (simp add: left_diff_distrib)
  then have "\<bar>of_int n - x / q\<bar> * q = \<bar>of_int n * q - x\<bar>"
    using q abs_mult[of "of_int n - x / q" q] by simp
  moreover have "1 / 2 * q = 2 powi (expo emin x - int p)"
    unfolding q_def using p2_half[of "expo emin x - int p"] by simp
  ultimately show ?thesis
    unfolding rnd_eq[OF False] q_def[symmetric] n_def[symmetric] by simp
qed

lemma rnd_err_rel:
  "\<bar>rnd p emin x - x\<bar> \<le> 2 powi (- int p) * \<bar>x\<bar> + 2 powi (emin - int p)"
proof (cases "x = 0")
  case True
  then show ?thesis by simp
next
  case False
  show ?thesis
  proof (cases "emin < expo emin x")
    case True
    have "(2::real) powi (expo emin x - int p) = 2 powi (- int p) * 2 powi (expo emin x)"
      using p2_add[of "- int p" "expo emin x"] by (simp add: algebra_simps)
    also have "\<dots> \<le> 2 powi (- int p) * \<bar>x\<bar>"
      using expo_lower[OF False True] by (intro mult_left_mono) simp_all
    finally have "2 powi (expo emin x - int p) \<le> 2 powi (- int p) * \<bar>x\<bar>" .
    moreover have "(0::real) \<le> 2 powi (emin - int p)" by simp
    ultimately show ?thesis using rnd_err[of p emin x] by linarith
  next
    case False
    then have "expo emin x = emin" using expo_ge_emin[of emin x] by simp
    then have "\<bar>rnd p emin x - x\<bar> \<le> 2 powi (emin - int p)"
      using rnd_err[of p emin x] by simp
    moreover have "0 \<le> 2 powi (- int p) * \<bar>x\<bar>" by simp
    ultimately show ?thesis by linarith
  qed
qed

lemma rnd_exact_strict:
  assumes "x = of_int m * 2 powi e" and "\<bar>m\<bar> < 2 ^ p" and "emin - int p + 1 \<le> e"
  shows "rnd p emin x = x"
proof (cases "x = 0")
  case True
  then show ?thesis by simp
next
  case False
  define k where "k = expo emin x - int p + 1"
  have ax: "\<bar>x\<bar> = of_int \<bar>m\<bar> * 2 powi e" by (simp add: assms(1) abs_mult)
  have "real_of_int \<bar>m\<bar> < 2 ^ p" using assms(2) by (metis of_int_less_numeral_power_cancel_iff)
  then have "\<bar>x\<bar> < 2 ^ p * 2 powi e"
    unfolding ax by (intro mult_strict_right_mono) simp_all
  also have "\<dots> = 2 powi (int p + e)" by (simp add: p2_add)
  finally have lt: "\<bar>x\<bar> < 2 powi (int p + e)" .
  have "2 powi \<lfloor>log 2 \<bar>x\<bar>\<rfloor> \<le> \<bar>x\<bar>"
    using False by (intro floor_log2_bounds) simp
  with lt have "(2::real) powi \<lfloor>log 2 \<bar>x\<bar>\<rfloor> < 2 powi (int p + e)" by linarith
  then have "\<lfloor>log 2 \<bar>x\<bar>\<rfloor> < int p + e" by (rule p2_less_imp)
  then have ke: "k \<le> e" using assms(3) by (simp add: k_def expo_def)
  have "x / 2 powi k = of_int m * 2 powi (e - k)"
    by (simp add: assms(1) p2_diff)
  also have "\<dots> = of_int (m * 2 ^ nat (e - k))"
    using ke by (simp add: power_int_nonneg_exp)
  finally have n: "x / 2 powi k = of_int (m * 2 ^ nat (e - k))" .
  have "rnd p emin x = of_int (m * 2 ^ nat (e - k)) * 2 powi k"
    unfolding rnd_eq[OF False] k_def[symmetric] n round_even_of_int ..
  also have "\<dots> = x" using n by (simp add: field_simps)
  finally show ?thesis .
qed

lemma rnd_exact:
  assumes "x = of_int m * 2 powi e" and "\<bar>m\<bar> \<le> 2 ^ p" and "emin - int p + 1 \<le> e"
    and "0 < p"
  shows "rnd p emin x = x"
proof (cases "\<bar>m\<bar> < 2 ^ p")
  case True
  then show ?thesis using assms(1,3) by (intro rnd_exact_strict)
next
  case False
  then have m: "\<bar>m\<bar> = 2 ^ p" using assms(2) by simp
  obtain p' where p': "p = Suc p'" using assms(4) by (cases p) simp_all
  define m' where "m' = m div 2"
  have "even m" using m unfolding p' by (metis even_abs_add_iff even_add even_mult_iff even_numeral power_Suc)
  then have mm: "m = 2 * m'" unfolding m'_def by simp
  have "\<bar>m'\<bar> = 2 ^ p'" using m unfolding mm p' by (simp add: abs_mult)
  then have 1: "\<bar>m'\<bar> < 2 ^ p" by (simp add: p')
  have 2: "x = of_int m' * 2 powi (e + 1)"
    by (simp add: assms(1) mm p2_add)
  show ?thesis using 2 1 assms(3) by (intro rnd_exact_strict[where m = m' and e = "e + 1"]) simp_all
qed


lemma round_even_nonneg: "0 \<le> y \<Longrightarrow> 0 \<le> round_even y"
  using round_even_mono[of 0 y] round_even_of_int[of 0] by simp

lemma rnd_nonneg:
  assumes "0 \<le> x"
  shows "0 \<le> rnd p emin x"
proof (cases "x = 0")
  case True
  then show ?thesis by simp
next
  case False
  have "0 \<le> x / 2 powi (expo emin x - int p + 1)" using assms by simp
  then have "0 \<le> round_even (x / 2 powi (expo emin x - int p + 1))"
    by (rule round_even_nonneg)
  then show ?thesis unfolding rnd_eq[OF False] by simp
qed

lemma rnd_upper:
  assumes "0 < x"
  shows "rnd p emin x \<le> 2 powi (expo emin x + 1)"
proof -
  define k where "k = expo emin x - int p + 1"
  have x0: "x \<noteq> 0" using assms by simp
  have "x < 2 powi (expo emin x + 1)" using expo_upper[OF x0, of emin] assms by simp
  also have "\<dots> = 2 ^ p * 2 powi k"
    using p2_add[of "int p" k] by (simp add: k_def)
  finally have "x / 2 powi k \<le> of_int (2 ^ p)"
    by (simp add: field_simps)
  then have "round_even (x / 2 powi k) \<le> round_even (of_int (2 ^ p))"
    by (rule round_even_mono)
  then have "round_even (x / 2 powi k) \<le> 2 ^ p" by (simp only: round_even_of_int)
  then have "real_of_int (round_even (x / 2 powi k)) \<le> 2 ^ p"
    by (metis of_int_le_numeral_power_cancel_iff)
  then have "real_of_int (round_even (x / 2 powi k)) * 2 powi k \<le> 2 ^ p * 2 powi k"
    by (intro mult_right_mono) simp_all
  also have "\<dots> = 2 powi (expo emin x + 1)"
    using p2_add[of "int p" k] by (simp add: k_def)
  finally show ?thesis unfolding rnd_eq[OF x0] k_def[symmetric] .
qed

lemma rnd_lower:
  assumes "0 < x" and "2 powi (expo emin x) \<le> x" and "0 < p"
  shows "2 powi (expo emin x) \<le> rnd p emin x"
proof -
  define k where "k = expo emin x - int p + 1"
  have x0: "x \<noteq> 0" using assms by simp
  obtain p' where p': "p = Suc p'" using assms(3) by (cases p) simp_all
  have e: "(2::real) powi (expo emin x) = 2 ^ p' * 2 powi k"
    using p2_add[of "int p'" k] by (simp add: k_def p')
  have "of_int (2 ^ p') \<le> x / 2 powi k"
    using assms(2) unfolding e by (simp add: field_simps)
  then have "round_even (of_int (2 ^ p')) \<le> round_even (x / 2 powi k)"
    by (rule round_even_mono)
  then have "2 ^ p' \<le> round_even (x / 2 powi k)" by (simp only: round_even_of_int)
  then have "2 ^ p' \<le> real_of_int (round_even (x / 2 powi k))"
    by (metis numeral_power_le_of_int_cancel_iff)
  then have "2 ^ p' * 2 powi k \<le> real_of_int (round_even (x / 2 powi k)) * 2 powi k"
    by (intro mult_right_mono) simp_all
  then show ?thesis unfolding rnd_eq[OF x0] k_def[symmetric] e .
qed

lemma rnd_mono_pos:
  assumes "0 < x" and "x \<le> y" and "0 < p"
  shows "rnd p emin x \<le> rnd p emin y"
proof -
  have x0: "x \<noteq> 0" and y0: "y \<noteq> 0" and ypos: "0 < y" using assms by simp_all
  have le: "expo emin x \<le> expo emin y" using assms by (intro expo_mono) simp_all
  show ?thesis
  proof (cases "expo emin x = expo emin y")
    case True
    define q :: real where "q = 2 powi (expo emin y - int p + 1)"
    have q: "0 < q" by (simp add: q_def)
    have "x / q \<le> y / q" using assms(2) q by (simp add: divide_right_mono)
    then have "round_even (x / q) \<le> round_even (y / q)" by (rule round_even_mono)
    then have "real_of_int (round_even (x / q)) * q \<le> real_of_int (round_even (y / q)) * q"
      using q by (intro mult_right_mono) simp_all
    then show ?thesis unfolding rnd_eq[OF x0] rnd_eq[OF y0] True q_def[symmetric] .
  next
    case False
    with le have lt: "expo emin x < expo emin y" by simp
    then have "emin < expo emin y" using expo_ge_emin[of emin x] by simp
    then have "2 powi (expo emin y) \<le> y" using expo_lower[OF y0, of emin] ypos by simp
    then have "2 powi (expo emin y) \<le> rnd p emin y" using ypos assms(3) by (intro rnd_lower)
    moreover have "rnd p emin x \<le> 2 powi (expo emin x + 1)" using assms(1) by (rule rnd_upper)
    moreover have "(2::real) powi (expo emin x + 1) \<le> 2 powi (expo emin y)"
      using lt by (intro p2_mono) simp
    ultimately show ?thesis by linarith
  qed
qed

lemma rnd_mono:
  assumes "x \<le> y" and "0 < p"
  shows "rnd p emin x \<le> rnd p emin y"
proof -
  consider "0 < x" | "x \<le> 0" "0 \<le> y" | "y < 0" by linarith
  then show ?thesis
  proof cases
    case 1
    then show ?thesis using assms by (intro rnd_mono_pos)
  next
    case 2
    have "0 \<le> rnd p emin (- x)" using 2(1) by (intro rnd_nonneg) simp
    then have "rnd p emin x \<le> 0" by (simp add: rnd_minus)
    moreover have "0 \<le> rnd p emin y" using 2(2) by (rule rnd_nonneg)
    ultimately show ?thesis by simp
  next
    case 3
    have "rnd p emin (- y) \<le> rnd p emin (- x)" using 3 assms by (intro rnd_mono_pos) simp_all
    then show ?thesis by (simp add: rnd_minus)
  qed
qed

text \<open>The result of a rounding is a number of the format.\<close>

lemma rnd_representable:
  assumes "0 < p"
  shows "\<exists>m e. rnd p emin x = of_int m * 2 powi e \<and> \<bar>m\<bar> \<le> 2 ^ p \<and> emin - int p + 1 \<le> e"
proof (cases "x = 0")
  case True
  have "rnd p emin x = of_int 0 * 2 powi (emin - int p + 1)" using True by simp
  then show ?thesis by (intro exI[of _ 0] exI[of _ "emin - int p + 1"]) simp
next
  case False
  define k where "k = expo emin x - int p + 1"
  define n where "n = round_even (x / 2 powi k)"
  have "\<bar>x\<bar> < 2 powi (expo emin x + 1)" using False by (rule expo_upper)
  also have "\<dots> = 2 ^ p * 2 powi k"
    using p2_add[of "int p" k] by (simp add: k_def)
  finally have b: "\<bar>x\<bar> / 2 powi k \<le> 2 ^ p" by (simp add: field_simps)
  have b1: "x / 2 powi k \<le> of_int (2 ^ p)" and b2: "of_int (- (2 ^ p)) \<le> x / 2 powi k"
    using b by (simp_all add: abs_le_iff field_simps)
  have "round_even (x / 2 powi k) \<le> round_even (of_int (2 ^ p))"
    using b1 by (rule round_even_mono)
  moreover have "round_even (of_int (- (2 ^ p))) \<le> round_even (x / 2 powi k)"
    using b2 by (rule round_even_mono)
  ultimately have "\<bar>n\<bar> \<le> 2 ^ p" unfolding n_def round_even_of_int by simp
  moreover have "rnd p emin x = of_int n * 2 powi k"
    unfolding rnd_eq[OF False] k_def[symmetric] n_def ..
  moreover have "emin - int p + 1 \<le> k" using expo_ge_emin[of emin x] by (simp add: k_def)
  ultimately show ?thesis by blast
qed

lemma rnd_idem:
  assumes "0 < p"
  shows "rnd p emin (rnd p emin x) = rnd p emin x"
proof -
  from rnd_representable[OF assms, of emin x] obtain m e where
    "rnd p emin x = of_int m * 2 powi e" "\<bar>m\<bar> \<le> 2 ^ p" "emin - int p + 1 \<le> e"
    by blast
  then show ?thesis using assms by (intro rnd_exact)
qed

text \<open>Rounding a number whose binary exponent is known.\<close>

lemma rnd_eval:
  assumes "2 powi L \<le> \<bar>x\<bar>" and "\<bar>x\<bar> < 2 powi (L + 1)" and "emin \<le> L"
  shows "rnd p emin x = of_int (round_even (x / 2 powi (L - int p + 1))) * 2 powi (L - int p + 1)"
proof -
  have "0 < \<bar>x\<bar>" using assms(1) zero_less_power_int[of "2::real" L] by linarith
  then have x0: "x \<noteq> 0" by simp
  have "expo emin x = L" using expo_eq[OF assms(1,2), of emin] assms(3) by simp
  then show ?thesis unfolding rnd_eq[OF x0] by simp
qed


subsection \<open>Binary64\<close>

lemma fl64_0 [simp]: "fl64 0 = 0"
  by (simp add: fl64_def)

lemma fl64_minus: "fl64 (- x) = - fl64 x"
  by (simp add: fl64_def rnd_minus)

lemma fl64_mono: "x \<le> y \<Longrightarrow> fl64 x \<le> fl64 y"
  unfolding fl64_def by (rule rnd_mono) simp_all

lemma fl64_idem [simp]: "fl64 (fl64 x) = fl64 x"
  unfolding fl64_def by (rule rnd_idem) simp

lemma fl64_nonneg: "0 \<le> x \<Longrightarrow> 0 \<le> fl64 x"
  unfolding fl64_def by (rule rnd_nonneg)

lemma fl64_exact:
  assumes "x = of_int m * 2 powi e" and "\<bar>m\<bar> \<le> 2 ^ 53" and "- 1074 \<le> e"
  shows "fl64 x = x"
  unfolding fl64_def using assms by (intro rnd_exact[where m = m and e = e]) simp_all

lemma fl64_err: "\<bar>fl64 x - x\<bar> \<le> 2 powi (- 53) * \<bar>x\<bar> + 2 powi (- 1075)"
  using rnd_err_rel[of 53 "- 1022" x] by (simp add: fl64_def)

lemma fl64_eval:
  assumes "2 powi L \<le> \<bar>x\<bar>" and "\<bar>x\<bar> < 2 powi (L + 1)" and "- 1022 \<le> L"
  shows "fl64 x = of_int (round_even (x / 2 powi (L - 52))) * 2 powi (L - 52)"
  using rnd_eval[OF assms, of 53] by (simp add: fl64_def)

lemma fl64_int: "\<bar>m\<bar> \<le> 2 ^ 53 \<Longrightarrow> fl64 (of_int m) = of_int m"
  by (rule fl64_exact[where m = m and e = 0]) simp_all

lemma fl64_1 [simp]: "fl64 1 = 1"
  using fl64_int[of 1] by simp

lemma fl64_abs_le:
  assumes "\<bar>x\<bar> \<le> b" and "fl64 b = b"
  shows "\<bar>fl64 x\<bar> \<le> b"
proof -
  have "fl64 x \<le> fl64 b" using assms(1) by (intro fl64_mono) simp
  moreover have "fl64 (- b) \<le> fl64 x" using assms(1) by (intro fl64_mono) simp
  ultimately show ?thesis using assms(2) by (simp add: fl64_minus abs_le_iff)
qed

text \<open>A value of size at most 1 is rounded with an error of at most \<open>2 powi (- 54)\<close>.\<close>

lemma fl64_err_unit:
  assumes "\<bar>x\<bar> \<le> 1"
  shows "\<bar>fl64 x - x\<bar> \<le> 2 powi (- 54)"
proof (cases "\<bar>x\<bar> = 1 \<or> x = 0")
  case True
  then have "fl64 x = x" using fl64_minus[of 1] by (auto simp: abs_if split: if_splits)
  then show ?thesis by simp
next
  case False
  then have x0: "x \<noteq> 0" and lt: "\<bar>x\<bar> < 1" using assms by simp_all
  have "2 powi \<lfloor>log 2 \<bar>x\<bar>\<rfloor> \<le> \<bar>x\<bar>" using x0 by (intro floor_log2_bounds) simp
  with lt have "(2::real) powi \<lfloor>log 2 \<bar>x\<bar>\<rfloor> < 2 powi 0" by simp
  then have "\<lfloor>log 2 \<bar>x\<bar>\<rfloor> < 0" by (rule p2_less_imp)
  then have "max \<lfloor>log 2 \<bar>x\<bar>\<rfloor> (- 1022) \<le> - 1" by linarith
  then have "expo (- 1022) x \<le> - 1" unfolding expo_def .
  then have "(2::real) powi (expo (- 1022) x - int 53) \<le> 2 powi (- 54)"
    by (intro p2_mono) simp
  then show ?thesis using rnd_err[of 53 "- 1022" x] by (simp add: fl64_def)
qed

subsection \<open>Numbers\<close>

lemma is_double_dyadic:
  assumes "\<bar>m\<bar> < 2 ^ 53" and "- 1074 \<le> e" and "e \<le> 971"
  shows "is_double (of_int m * 2 powi e)"
proof -
  have "fl64 (of_int m * 2 powi e) = of_int m * 2 powi e"
    using assms by (intro fl64_exact[where m = m and e = e]) simp_all
  moreover have "\<bar>real_of_int m * 2 powi e\<bar> \<le> MAX_VALUE"
  proof -
    have "\<bar>m\<bar> \<le> 2 ^ 53 - 1" using assms(1) by simp
    then have "real_of_int \<bar>m\<bar> \<le> 2 ^ 53 - 1" by (metis of_int_1 of_int_diff of_int_le_iff of_int_numeral of_int_power)
    moreover have "(2::real) powi e \<le> 2 powi 971" using assms(3) by (rule p2_mono)
    ultimately have "real_of_int \<bar>m\<bar> * 2 powi e \<le> (2 ^ 53 - 1) * 2 powi 971"
      by (intro mult_mono) simp_all
    then show ?thesis by (simp add: MAX_VALUE_def abs_mult)
  qed
  ultimately show ?thesis by (simp add: is_double_def)
qed

lemma is_double_int: "\<bar>m\<bar> < 2 ^ 53 \<Longrightarrow> is_double (of_int m)"
  using is_double_dyadic[of m 0] by simp

lemma is_double_0 [simp]: "is_double 0"
  using is_double_int[of 0] by simp

lemma is_double_1 [simp]: "is_double 1"
  using is_double_int[of 1] by simp

lemma to_number_double: "is_double x \<Longrightarrow> to_number x = Some x"
  by (simp add: to_number_def is_double_def)

lemma to_number_0 [simp]: "to_number 0 = Some 0"
  by (simp add: to_number_double)

lemma to_number_1 [simp]: "to_number 1 = Some 1"
  by (simp add: to_number_double)

lemma to_number_is_double: "to_number x = Some r \<Longrightarrow> is_double r"
  by (auto simp: to_number_def is_double_def Let_def split: if_splits)

lemma to_number_eq: "to_number x = Some r \<Longrightarrow> r = fl64 x"
  by (auto simp: to_number_def Let_def split: if_splits)

lemma fl64_two_1023: "fl64 (2 ^ 1023) = 2 ^ 1023"
  using fl64_exact[of "2 ^ 1023" 1 1023] by simp

text \<open>A result of size at most \<open>2 ^ 1023\<close> is rounded to a finite number.\<close>

lemma to_number_finite:
  assumes "\<bar>x\<bar> \<le> 2 ^ 1023"
  shows "to_number x = Some (fl64 x)"
proof -
  have "\<bar>fl64 x\<bar> \<le> 2 ^ 1023" using assms fl64_two_1023 by (rule fl64_abs_le)
  moreover have "(2::real) ^ 1023 \<le> MAX_VALUE" by (simp add: MAX_VALUE_def)
  ultimately show ?thesis by (simp add: to_number_def Let_def)
qed

lemma fl64_two_1021: "fl64 (2 ^ 1021) = 2 ^ 1021"
  using fl64_exact[of "2 ^ 1021" 1 1021] by simp

lemma num_mul_Some [simp]: "num_mul (Some x) (Some y) = to_number (x * y)"
  by (simp add: num_mul_def)

lemma num_add_Some [simp]: "num_add (Some x) (Some y) = to_number (x + y)"
  by (simp add: num_add_def)

lemma num_sub_Some [simp]: "num_sub (Some x) (Some y) = to_number (x - y)"
  by (simp add: num_sub_def)

lemma num_mul_None [simp]: "num_mul None b = None" "num_mul a None = None"
  by (simp_all add: num_mul_def split: option.splits)

lemma num_add_None [simp]: "num_add None b = None" "num_add a None = None"
  by (simp_all add: num_add_def split: option.splits)

lemma num_sub_None [simp]: "num_sub None b = None" "num_sub a None = None"
  by (simp_all add: num_sub_def split: option.splits)

subsection \<open>The values of \<open>lerp\<close>\<close>

lemma lerp_None [simp]:
  "lerp None b t = None" "lerp a None t = None" "lerp a b None = None"
  by (simp_all add: lerp_def)

lemma lerp_at_0:
  assumes "is_double c"
  shows "lerp (Some c) (Some t) (Some 0) = Some c"
  using assms by (simp add: lerp_def to_number_double)

lemma lerp_at_1:
  assumes "is_double t"
  shows "lerp (Some c) (Some t) (Some 1) = Some t"
  using assms by (simp add: lerp_def to_number_double)

text \<open>From 0 the step is the target times \<open>t\<close>, rounded once.\<close>

lemma lerp_from_0:
  assumes "\<bar>s\<bar> \<le> 2 ^ 1022"
  shows "lerp (Some 0) (Some T) (Some s) = to_number (T * s)"
proof -
  have "\<bar>1 - s\<bar> \<le> 2 ^ 1023" using assms by simp
  then have a: "to_number (1 - s) = Some (fl64 (1 - s))" by (rule to_number_finite)
  show ?thesis
  proof (cases "to_number (T * s)")
    case None
    then show ?thesis by (simp add: lerp_def a)
  next
    case (Some p)
    then have "is_double p" by (rule to_number_is_double)
    then show ?thesis by (simp add: lerp_def a Some to_number_double)
  qed
qed

text \<open>
  The error of one step with \<open>0 \<le> s \<le> 1\<close>: four roundings, each with a relative error
  of at most \<open>2 powi (- 53)\<close> and an absolute one of at most \<open>2 powi (- 1075)\<close>.
\<close>

lemma lerp_error:
  assumes "0 \<le> s" and "s \<le> 1" and "\<bar>c\<bar> \<le> 2 ^ 1021" and "\<bar>t\<bar> \<le> 2 ^ 1021"
  shows "\<exists>r. lerp (Some c) (Some t) (Some s) = Some r
           \<and> \<bar>r - (c * (1 - s) + t * s)\<bar> \<le> 2 powi (- 50) * max \<bar>c\<bar> \<bar>t\<bar> + 2 powi (- 1073)"
proof -
  define \<epsilon> :: real where "\<epsilon> = 2 powi (- 53)"
  define \<eta> :: real where "\<eta> = 2 powi (- 1075)"
  define M where "M = max \<bar>c\<bar> \<bar>t\<bar>"
  define E where "E = \<epsilon> * M"
  define a where "a = fl64 (1 - s)"
  define p1 where "p1 = fl64 (c * a)"
  define p2 where "p2 = fl64 (t * s)"
  define r where "r = fl64 (p1 + p2)"
  have eps: "0 \<le> \<epsilon>" "\<epsilon> \<le> 1" "0 \<le> \<eta>" "\<eta> \<le> \<epsilon>" "2 * \<epsilon> \<le> 1"
    by (simp_all add: \<epsilon>_def \<eta>_def power_int_minus field_simps p2_mono)
  have M: "0 \<le> M" "\<bar>c\<bar> \<le> M" "\<bar>t\<bar> \<le> M" "M \<le> 2 ^ 1021"
    using assms by (simp_all add: M_def)
  have E: "0 \<le> E" "\<epsilon> * E \<le> E" "M * \<eta> \<le> E" "2 * (\<epsilon> * \<eta>) \<le> \<eta>"
  proof -
    show "0 \<le> E" using eps M by (simp add: E_def)
    then show "\<epsilon> * E \<le> E" using eps mult_right_mono[of \<epsilon> 1 E] by simp
    show "M * \<eta> \<le> E" unfolding E_def using eps M mult_right_mono[of \<eta> \<epsilon> M]
      by (simp add: mult.commute)
    show "2 * (\<epsilon> * \<eta>) \<le> \<eta>" using eps mult_right_mono[of "2 * \<epsilon>" 1 \<eta>] by simp
  qed
  have err: "\<bar>fl64 x - x\<bar> \<le> \<epsilon> * \<bar>x\<bar> + \<eta>" for x
    unfolding \<epsilon>_def \<eta>_def by (rule fl64_err)
  \<comment> \<open>the factor \<open>1 - s\<close>\<close>
  have a01: "0 \<le> a" "a \<le> 1"
    using assms fl64_nonneg[of "1 - s"] fl64_mono[of "1 - s" 1] by (simp_all add: a_def)
  have "\<bar>a - (1 - s)\<bar> \<le> \<epsilon> * \<bar>1 - s\<bar> + \<eta>" unfolding a_def by (rule err)
  moreover have "\<epsilon> * \<bar>1 - s\<bar> \<le> \<epsilon> * 1" using assms eps by (intro mult_left_mono) simp_all
  ultimately have da: "\<bar>a - (1 - s)\<bar> \<le> \<epsilon> + \<eta>" by simp
  have na: "to_number (1 - s) = Some a"
    unfolding a_def using assms by (intro to_number_finite) simp
  \<comment> \<open>the two products\<close>
  have x1: "\<bar>c * a\<bar> \<le> M"
  proof -
    have "\<bar>c\<bar> * a \<le> \<bar>c\<bar> * 1" using a01 by (intro mult_left_mono) simp_all
    then show ?thesis using M a01 by (simp add: abs_mult)
  qed
  have x2: "\<bar>t * s\<bar> \<le> M"
  proof -
    have "\<bar>t\<bar> * s \<le> \<bar>t\<bar> * 1" using assms by (intro mult_left_mono) simp_all
    then show ?thesis using M assms by (simp add: abs_mult)
  qed
  have d1: "\<bar>p1 - c * a\<bar> \<le> E + \<eta>"
  proof -
    have "\<bar>p1 - c * a\<bar> \<le> \<epsilon> * \<bar>c * a\<bar> + \<eta>" unfolding p1_def by (rule err)
    moreover have "\<epsilon> * \<bar>c * a\<bar> \<le> \<epsilon> * M" using x1 eps by (intro mult_left_mono) simp_all
    ultimately show ?thesis by (simp add: E_def)
  qed
  have d2: "\<bar>p2 - t * s\<bar> \<le> E + \<eta>"
  proof -
    have "\<bar>p2 - t * s\<bar> \<le> \<epsilon> * \<bar>t * s\<bar> + \<eta>" unfolding p2_def by (rule err)
    moreover have "\<epsilon> * \<bar>t * s\<bar> \<le> \<epsilon> * M" using x2 eps by (intro mult_left_mono) simp_all
    ultimately show ?thesis by (simp add: E_def)
  qed
  have n1: "to_number (c * a) = Some p1"
    unfolding p1_def using x1 M by (intro to_number_finite) simp
  have n2: "to_number (t * s) = Some p2"
    unfolding p2_def using x2 M by (intro to_number_finite) simp
  \<comment> \<open>the sum\<close>
  have b1: "\<bar>p1\<bar> \<le> 2 ^ 1021" unfolding p1_def using x1 M fl64_two_1021
    by (intro fl64_abs_le) simp_all
  have b2: "\<bar>p2\<bar> \<le> 2 ^ 1021" unfolding p2_def using x2 M fl64_two_1021
    by (intro fl64_abs_le) simp_all
  have n3: "to_number (p1 + p2) = Some r"
    unfolding r_def using b1 b2 by (intro to_number_finite) simp
  have x3: "\<bar>p1 + p2\<bar> \<le> 2 * M + 2 * E + 2 * \<eta>"
    using d1 d2 x1 x2 by linarith
  have d3: "\<bar>r - (p1 + p2)\<bar> \<le> 2 * E + 2 * (\<epsilon> * E) + 2 * (\<epsilon> * \<eta>) + \<eta>"
  proof -
    have "\<bar>r - (p1 + p2)\<bar> \<le> \<epsilon> * \<bar>p1 + p2\<bar> + \<eta>" unfolding r_def by (rule err)
    moreover have "\<epsilon> * \<bar>p1 + p2\<bar> \<le> \<epsilon> * (2 * M + 2 * E + 2 * \<eta>)"
      using x3 eps by (intro mult_left_mono) simp_all
    moreover have "\<epsilon> * (2 * M + 2 * E + 2 * \<eta>) = 2 * E + 2 * (\<epsilon> * E) + 2 * (\<epsilon> * \<eta>)"
      by (simp add: E_def algebra_simps)
    ultimately show ?thesis by linarith
  qed
  have d0: "\<bar>c * (a - (1 - s))\<bar> \<le> E + E"
  proof -
    have "\<bar>c\<bar> * \<bar>a - (1 - s)\<bar> \<le> M * (\<epsilon> + \<eta>)"
      using M da by (intro mult_mono) simp_all
    also have "\<dots> = E + M * \<eta>" by (simp add: E_def algebra_simps)
    finally show ?thesis using E by (simp add: abs_mult)
  qed
  have "r - (c * (1 - s) + t * s)
          = (r - (p1 + p2)) + (p1 - c * a) + (p2 - t * s) + c * (a - (1 - s))"
    by (simp add: algebra_simps)
  then have "\<bar>r - (c * (1 - s) + t * s)\<bar> \<le> 8 * E + 4 * \<eta>"
    using d0 d1 d2 d3 E by linarith
  moreover have "8 * E = 2 powi (- 50) * M"
    by (simp add: E_def \<epsilon>_def power_int_minus)
  moreover have "4 * \<eta> = 2 powi (- 1073)"
    by (simp add: \<eta>_def power_int_minus)
  moreover have "lerp (Some c) (Some t) (Some s) = Some r"
    by (simp add: lerp_def na n1 n2 n3)
  ultimately show ?thesis unfolding M_def by auto
qed

subsection \<open>Numbers of the source and of the examples\<close>

lemma to_number_int: "\<bar>m\<bar> < 2 ^ 53 \<Longrightarrow> to_number (of_int m) = Some (of_int m)"
  by (simp add: to_number_double is_double_int)

lemma to_number_numeral [simp]:
  "(numeral n :: int) < 2 ^ 53 \<Longrightarrow> to_number (numeral n) = Some (numeral n)"
  using to_number_int[of "numeral n"] by simp

lemma to_number_neg_numeral [simp]:
  "(numeral n :: int) < 2 ^ 53 \<Longrightarrow> to_number (- numeral n) = Some (- numeral n)"
  using to_number_int[of "- numeral n"] by simp

lemma to_number_minus_1 [simp]: "to_number (- 1) = Some (- 1)"
  using to_number_int[of "- 1"] by simp

lemma to_number_frac:
  assumes "\<bar>m\<bar> < 2 ^ 53" and "k \<le> 1074"
  shows "to_number (of_int m / 2 ^ k) = Some (of_int m / 2 ^ k)"
proof -
  have "is_double (of_int m * 2 powi (- int k))"
    using assms by (intro is_double_dyadic) simp_all
  then show ?thesis by (simp add: to_number_double power_int_minus field_simps)
qed

lemma to_number_half [simp]: "to_number (1 / 2) = Some (1 / 2)"
  using to_number_frac[of 1 1] by simp

lemma to_number_quarter [simp]: "to_number (1 / 4) = Some (1 / 4)"
  using to_number_frac[of 1 2] by simp

lemma to_number_eighth [simp]: "to_number (1 / 8) = Some (1 / 8)"
  using to_number_frac[of 1 3] by simp

text \<open>A decimal literal of ordinary size is a finite number.\<close>

lemma to_number_literal:
  assumes "\<bar>x\<bar> \<le> 2 ^ 1023"
  shows "\<exists>r. to_number x = Some r \<and> is_double r"
  using to_number_finite[OF assms] to_number_is_double[of x "fl64 x"] by simp

section \<open>Facts about the initial state\<close>

lemma initial_currentPos_nth:
  "i < ORNAMENT_COUNT \<Longrightarrow> initial_currentPos ! i = new_Vector3 (Some 0) (Some 0) (Some 0)"
  by (simp add: initial_currentPos_def)

lemma initial_currentPos_length: "length initial_currentPos = ORNAMENT_COUNT"
  by (simp add: initial_currentPos_def)

lemma initial_currentStarPos_eq:
  "initial_currentStarPos = new_Vector3 (Some 0) (Some 0) (Some 0)"
  by (simp add: initial_currentStarPos_def)

section \<open>Facts about the frame callback\<close>

subsection \<open>The store\<close>

lemma store_update_star: "store (update_star tg c d s) = store s"
  by (simp add: update_star_def Let_def split: option.splits)

lemma store_update_ornaments: "store (update_ornaments tg c d s) = store s"
  by (simp add: update_ornaments_def split: option.splits prod.splits)

lemma store_useFrame:
  "store (useFrame tg e d s) = setChaosLevel (newChaos_of (store s) d) (store s)"
  by (simp add: useFrame_def Let_def store_update_ornaments store_update_star)

lemma chaosLevel_useFrame:
  "chaosLevel (store (useFrame tg e d s)) = newChaos_of (store s) d"
  by (simp add: store_useFrame setChaosLevel_def)

lemma target_useFrame:
  "targetChaosLevel (store (useFrame tg e d s)) = targetChaosLevel (store s)"
  by (simp add: store_useFrame setChaosLevel_def)

lemma target_frames:
  "targetChaosLevel (store (frames tg clock d n s)) = targetChaosLevel (store s)"
  by (induction n) (simp_all add: target_useFrame)

subsection \<open>The loop over the ornaments\<close>

lemma ornament_loop_Suc:
  assumes "fold (ornament_round tg c d) [0..<Suc n] st = (dum', curs', mesh')"
  obtains d1 c1 m1 where
    "fold (ornament_round tg c d) [0..<n] st = (d1, c1, m1)"
    "curs' = c1[n := ornament_step tg c d n (c1 ! n)]"
    "dum' = d1\<lparr>obj_position := new_Vector3 (vec_x (ornament_step tg c d n (c1 ! n)))
                                          (vec_y (ornament_step tg c d n (c1 ! n)))
                                          (vec_z (ornament_step tg c d n (c1 ! n))),
                 obj_scale := new_Vector3 (lerp (to_number 0.35) (to_number 0.1) c) (lerp (to_number 0.35) (to_number 0.1) c) (lerp (to_number 0.35) (to_number 0.1) c)\<rparr>"
    "mesh' = setMatrixAt n dum' m1"
proof -
  obtain d1 c1 m1 where f: "fold (ornament_round tg c d) [0..<n] st = (d1, c1, m1)"
    by (cases "fold (ornament_round tg c d) [0..<n] st") auto
  have "ornament_round tg c d n (d1, c1, m1) = (dum', curs', mesh')"
    using assms by (simp add: f)
  then have "curs' = c1[n := ornament_step tg c d n (c1 ! n)]"
    and "dum' = d1\<lparr>obj_position := new_Vector3 (vec_x (ornament_step tg c d n (c1 ! n)))
                                          (vec_y (ornament_step tg c d n (c1 ! n)))
                                          (vec_z (ornament_step tg c d n (c1 ! n))),
                 obj_scale := new_Vector3 (lerp (to_number 0.35) (to_number 0.1) c) (lerp (to_number 0.35) (to_number 0.1) c) (lerp (to_number 0.35) (to_number 0.1) c)\<rparr>"
    and "mesh' = setMatrixAt n dum' m1"
    by (auto simp: ornament_round_def Let_def)
  with f that show thesis by blast
qed

lemma ornament_loop_length:
  "fold (ornament_round tg c d) [0..<n] (dum, curs, mesh) = (dum', curs', mesh') \<Longrightarrow>
     length curs' = length curs \<and> length (instanceMatrix mesh') = length (instanceMatrix mesh)"
proof (induction n arbitrary: dum' curs' mesh')
  case 0
  then show ?case by simp
next
  case (Suc n)
  from Suc.prems obtain d1 c1 m1 where
    f: "fold (ornament_round tg c d) [0..<n] (dum, curs, mesh) = (d1, c1, m1)"
    and c: "curs' = c1[n := ornament_step tg c d n (c1 ! n)]"
    and m: "mesh' = setMatrixAt n dum' m1"
    by (rule ornament_loop_Suc)
  from Suc.IH[OF f] show ?case
    by (simp add: c m setMatrixAt_def)
qed

text \<open>After \<open>n\<close> rounds the first \<open>n\<close> positions have made one step, the others none.\<close>

lemma ornament_loop_curs:
  "fold (ornament_round tg c d) [0..<n] (dum, curs, mesh) = (dum', curs', mesh') \<Longrightarrow>
     i < length curs \<Longrightarrow>
     curs' ! i = (if i < n then ornament_step tg c d i (curs ! i) else curs ! i)"
proof (induction n arbitrary: dum' curs' mesh')
  case 0
  then show ?case by simp
next
  case (Suc n)
  from Suc.prems(1) obtain d1 c1 m1 where
    f: "fold (ornament_round tg c d) [0..<n] (dum, curs, mesh) = (d1, c1, m1)"
    and c: "curs' = c1[n := ornament_step tg c d n (c1 ! n)]"
    by (rule ornament_loop_Suc)
  have len: "length c1 = length curs" using ornament_loop_length[OF f] by simp
  have ih: "c1 ! i = (if i < n then ornament_step tg c d i (curs ! i) else curs ! i)"
    using Suc.IH[OF f Suc.prems(2)] .
  show ?case
  proof (cases "i = n")
    case True
    then show ?thesis using Suc.prems(2) len ih by (simp add: c)
  next
    case False
    then show ?thesis using Suc.prems(2) len ih by (auto simp: c less_Suc_eq)
  qed
qed

lemma ornament_loop_scale:
  "fold (ornament_round tg c d) [0..<n] (dum, curs, mesh) = (dum', curs', mesh') \<Longrightarrow>
     i < n \<Longrightarrow> i < length (instanceMatrix mesh) \<Longrightarrow>
     obj_scale (instanceMatrix mesh' ! i)
       = new_Vector3 (lerp (to_number 0.35) (to_number 0.1) c) (lerp (to_number 0.35) (to_number 0.1) c) (lerp (to_number 0.35) (to_number 0.1) c)"
proof (induction n arbitrary: dum' curs' mesh')
  case 0
  then show ?case by simp
next
  case (Suc n)
  from Suc.prems(1) obtain d1 c1 m1 where
    f: "fold (ornament_round tg c d) [0..<n] (dum, curs, mesh) = (d1, c1, m1)"
    and dm: "dum' = d1\<lparr>obj_position := new_Vector3 (vec_x (ornament_step tg c d n (c1 ! n)))
                                          (vec_y (ornament_step tg c d n (c1 ! n)))
                                          (vec_z (ornament_step tg c d n (c1 ! n))),
                 obj_scale := new_Vector3 (lerp (to_number 0.35) (to_number 0.1) c) (lerp (to_number 0.35) (to_number 0.1) c) (lerp (to_number 0.35) (to_number 0.1) c)\<rparr>"
    and m: "mesh' = setMatrixAt n dum' m1"
    by (rule ornament_loop_Suc)
  have len: "length (instanceMatrix m1) = length (instanceMatrix mesh)"
    using ornament_loop_length[OF f] by simp
  show ?case
  proof (cases "i = n")
    case True
    then show ?thesis using Suc.prems(3) len by (simp add: m setMatrixAt_def dm)
  next
    case False
    then have "i < n" using Suc.prems(2) by simp
    from Suc.IH[OF f this Suc.prems(3)] False show ?thesis
      by (simp add: m setMatrixAt_def)
  qed
qed

subsection \<open>What one frame leaves in the component\<close>

lemma ornamentsRef_update_star: "ornamentsRef (update_star tg c d s) = ornamentsRef s"
  by (simp add: update_star_def Let_def split: option.splits)

lemma currentPos_update_star: "currentPos (update_star tg c d s) = currentPos s"
  by (simp add: update_star_def Let_def split: option.splits)

lemma dummy_update_star: "dummy (update_star tg c d s) = dummy s"
  by (simp add: update_star_def Let_def split: option.splits)

lemma useFrame_ornaments:
  assumes "ornamentsRef s = Some mesh"
  obtains dum' curs' mesh' where
    "fold (ornament_round tg (newChaos_of (store s) d) d) [0..<ORNAMENT_COUNT]
        (dummy s, currentPos s, mesh) = (dum', curs', mesh')"
    "ornamentsRef (useFrame tg e d s) = Some (mesh'\<lparr>needsUpdate := True\<rparr>)"
    "currentPos (useFrame tg e d s) = curs'"
proof -
  obtain dum' curs' mesh' where f:
    "fold (ornament_round tg (newChaos_of (store s) d) d) [0..<ORNAMENT_COUNT]
        (dummy s, currentPos s, mesh) = (dum', curs', mesh')"
    by (cases "fold (ornament_round tg (newChaos_of (store s) d) d) [0..<ORNAMENT_COUNT]
        (dummy s, currentPos s, mesh)") auto
  have "ornamentsRef (useFrame tg e d s) = Some (mesh'\<lparr>needsUpdate := True\<rparr>)"
    and "currentPos (useFrame tg e d s) = curs'"
    using assms f
    by (simp_all add: useFrame_def Let_def update_ornaments_def ornamentsRef_update_star
          currentPos_update_star dummy_update_star)
  with f that show thesis by blast
qed

lemma currentStarPos_useFrame:
  "starRef s = Some star \<Longrightarrow>
     currentStarPos (useFrame tg e d s)
       = star_step tg (newChaos_of (store s) d) d (currentStarPos s)"
  by (simp add: useFrame_def Let_def update_ornaments_def update_star_def
        split: option.splits prod.splits)

lemma currentPos_useFrame:
  assumes "ornamentsRef s = Some mesh" "i < ORNAMENT_COUNT"
    "length (currentPos s) = ORNAMENT_COUNT"
  shows "currentPos (useFrame tg e d s) ! i
           = ornament_step tg (newChaos_of (store s) d) d i (currentPos s ! i)"
proof -
  from assms(1) obtain dum' curs' mesh' where
    f: "fold (ornament_round tg (newChaos_of (store s) d) d) [0..<ORNAMENT_COUNT]
        (dummy s, currentPos s, mesh) = (dum', curs', mesh')"
    and r: "currentPos (useFrame tg e d s) = curs'"
    by (rule useFrame_ornaments)
  show ?thesis
    using ornament_loop_curs[OF f, of i] assms(2,3) by (simp add: r)
qed

section \<open>The claims\<close>

subsection \<open>The frame callback and its inputs\<close>

text \<open>
  C6 (amended). The frame callback uses \<open>dt\<close> and \<open>targetChaosLevel\<close> as they come, with no
  clamp: for every \<open>dt\<close> and every target the new chaos level is
  \<open>chaosLevel * (1 - dt * 2) + targetChaosLevel * (dt * 2)\<close>, as the source computes it.
  A \<open>dt\<close> that is not finite makes the chaos level not finite. A frame with \<open>dt = 0\<close>
  leaves a finite chaos level as it is, the target being finite.
\<close>

theorem frame_inputs_not_clamped:
  "chaosLevel (store (useFrame tg elapsedTime dt s))
     = num_add (num_mul (chaosLevel (store s)) (num_sub (to_number 1) (num_mul dt (to_number 2))))
               (num_mul (targetChaosLevel (store s)) (num_mul dt (to_number 2)))
   \<and> chaosLevel (store (useFrame tg elapsedTime None s)) = None
   \<and> (\<forall>c t. chaosLevel (store s) = Some c \<and> is_double c \<and> targetChaosLevel (store s) = Some t \<longrightarrow>
          chaosLevel (store (useFrame tg elapsedTime (to_number 0) s)) = Some c)"
  by (auto simp: chaosLevel_useFrame newChaos_of_def lerp_def to_number_double)

theorem frame_inputs_not_clamped_witness:
  "chaosLevel (store (initial_LuxuryTree \<lparr>chaosLevel = to_number 0, targetChaosLevel = to_number 2\<rparr>
       None None None)) = Some 0
   \<and> is_double 0
   \<and> targetChaosLevel (store (initial_LuxuryTree \<lparr>chaosLevel = to_number 0, targetChaosLevel = to_number 2\<rparr>
       None None None)) = Some 2
   \<and> chaosLevel (store (useFrame example_targets (to_number 0) (to_number 0)
       (initial_LuxuryTree \<lparr>chaosLevel = to_number 0, targetChaosLevel = to_number 2\<rparr>
          None None None))) = Some 0
   \<and> chaosLevel (store (useFrame example_targets (to_number 0) (to_number (- 1))
       (initial_LuxuryTree \<lparr>chaosLevel = to_number 0, targetChaosLevel = to_number 2\<rparr>
          None None None))) = Some (- 4)"
proof -
  let ?s = "initial_LuxuryTree \<lparr>chaosLevel = to_number 0, targetChaosLevel = to_number 2\<rparr>
       None None None"
  have h: "chaosLevel (store ?s) = Some 0" "is_double 0" "targetChaosLevel (store ?s) = Some 2"
    by (simp_all add: initial_LuxuryTree_def)
  note t = frame_inputs_not_clamped [of example_targets "to_number 0" "to_number (- 1)" ?s]
  have "chaosLevel (store (useFrame example_targets (to_number 0) (to_number 0) ?s)) = Some 0"
    using t h by blast
  moreover have "chaosLevel (store (useFrame example_targets (to_number 0) (to_number (- 1)) ?s))
      = Some (- 4)"
    using t h by simp
  ultimately show ?thesis using h by simp
qed

text \<open>
  A frame with \<open>dt = -1\<close> is not the frame with \<open>dt = 0\<close>, and a frame with the target 2
  is not the frame with the target clamped to 1.
\<close>

theorem frame_clamp_counterexample:
  "chaosLevel (store (useFrame example_targets (to_number 0) (to_number (- 1))
       (initial_LuxuryTree \<lparr>chaosLevel = to_number 0, targetChaosLevel = to_number 1\<rparr>
          None None None)))
     \<noteq> chaosLevel (store (useFrame example_targets (to_number 0) (to_number 0)
       (initial_LuxuryTree \<lparr>chaosLevel = to_number 0, targetChaosLevel = to_number 1\<rparr>
          None None None)))
   \<and> chaosLevel (store (useFrame example_targets (to_number 0) (to_number (1 / 4))
       (initial_LuxuryTree \<lparr>chaosLevel = to_number 0, targetChaosLevel = to_number 2\<rparr>
          None None None)))
     \<noteq> chaosLevel (store (useFrame example_targets (to_number 0) (to_number (1 / 4))
       (initial_LuxuryTree
          \<lparr>chaosLevel = to_number 0, targetChaosLevel = to_number (max 0 (min 1 2))\<rparr>
          None None None)))"
  by (simp add: chaosLevel_useFrame newChaos_of_def lerp_def initial_LuxuryTree_def)

subsection \<open>The vertex shader\<close>

text \<open>
  C7. For a light, the size of the vertex stage is the particle's size times
  \<open>1 + 0.5 * (1 + sin (uTime * 3 + pos.x * 10)) * 1.5\<close>; for any other particle it is
  the particle's size, with no twinkle. The particles from the index \<open>FOLIAGE_COUNT\<close> on
  are the lights. The point size is that size times the perspective factor.
\<close>

theorem twinkle_size:
  "(aIsLight > 0.5 \<longrightarrow>
      main_baseSize pos aSize aIsLight uTime
        = aSize * (1 + 0.5 * (1 + sin (uTime * 3 + x3 pos * 10)) * 1.5))
   \<and> (\<not> aIsLight > 0.5 \<longrightarrow> main_baseSize pos aSize aIsLight uTime = aSize)
   \<and> main_baseSize pos aSize (particle_isLight i) uTime
        = (if FOLIAGE_COUNT \<le> i
           then aSize * (1 + 0.5 * (1 + sin (uTime * 3 + x3 pos * 10)) * 1.5)
           else aSize)
   \<and> gl_PointSize (foliageVertexShader modelViewMatrix projectionMatrix uProgress uTime
          aTreePos aChaosPos aSize aColor aIsLight)
        = main_baseSize (main_pos aTreePos aChaosPos uProgress uTime) aSize aIsLight uTime
            * (300 / - z4 (mat_vec modelViewMatrix
                 (Vec4 (x3 (main_pos aTreePos aChaosPos uProgress uTime))
                       (y3 (main_pos aTreePos aChaosPos uProgress uTime))
                       (z3 (main_pos aTreePos aChaosPos uProgress uTime)) 1)))"
proof -
  have tw: "sin a * 0.5 + 0.5 = 0.5 * (1 + sin a)" for a :: real
    by (simp add: distrib_left)
  have "gl_PointSize (foliageVertexShader modelViewMatrix projectionMatrix uProgress uTime
          aTreePos aChaosPos aSize aColor aIsLight)
        = main_baseSize (main_pos aTreePos aChaosPos uProgress uTime) aSize aIsLight uTime
            * (300 / - z4 (mat_vec modelViewMatrix
                 (Vec4 (x3 (main_pos aTreePos aChaosPos uProgress uTime))
                       (y3 (main_pos aTreePos aChaosPos uProgress uTime))
                       (z3 (main_pos aTreePos aChaosPos uProgress uTime)) 1)))"
    by (simp add: foliageVertexShader_def Let_def)
  then show ?thesis
    unfolding main_baseSize_def particle_isLight_def Let_def tw by auto
qed

theorem twinkle_size_witness:
  "(1::real) > 0.5 \<and> main_baseSize (Vec3 0 0 0) 0.5 1 0 = 0.875
   \<and> \<not> (0::real) > 0.5 \<and> main_baseSize (Vec3 0 0 0) 0.5 0 0 = 0.5"
  using twinkle_size [of 1 "Vec3 0 0 0" "0.5" 0] twinkle_size [of 0 "Vec3 0 0 0" "0.5" 0]
  by simp



end
